theory Spec2Isabelle
  imports Complex_Main
begin

section \<open>Numbers\<close>

text \<open>
  A JavaScript number, read over exact arithmetic: a finite value is a real (no rounding,
  no overflow, and the two zeros of IEEE 754 are one), and the three values that are not
  finite are kept, since the code divides without a guard and starts \<open>radius\<close> at \<open>NaN\<close>.
\<close>

datatype number = Fin real | PInf | NInf | NaN

text \<open>Unary minus.\<close>

fun n_neg :: "number \<Rightarrow> number" where
  "n_neg (Fin a) = Fin (- a)"
| "n_neg PInf = NInf"
| "n_neg NInf = PInf"
| "n_neg NaN = NaN"

text \<open>The operator \<open>+\<close> on numbers.\<close>

fun n_add :: "number \<Rightarrow> number \<Rightarrow> number" where
  "n_add NaN _ = NaN"
| "n_add _ NaN = NaN"
| "n_add (Fin a) (Fin b) = Fin (a + b)"
| "n_add (Fin a) PInf = PInf"
| "n_add (Fin a) NInf = NInf"
| "n_add PInf (Fin b) = PInf"
| "n_add NInf (Fin b) = NInf"
| "n_add PInf PInf = PInf"
| "n_add NInf NInf = NInf"
| "n_add PInf NInf = NaN"
| "n_add NInf PInf = NaN"

text \<open>The operator \<open>-\<close>: in IEEE 754, \<open>a - b\<close> is \<open>a + (-b)\<close>.\<close>

definition n_sub :: "number \<Rightarrow> number \<Rightarrow> number" where
  "n_sub a b = n_add a (n_neg b)"

text \<open>The operator \<open>*\<close>: zero times an infinity is \<open>NaN\<close>.\<close>

fun n_mul :: "number \<Rightarrow> number \<Rightarrow> number" where
  "n_mul NaN _ = NaN"
| "n_mul _ NaN = NaN"
| "n_mul (Fin a) (Fin b) = Fin (a * b)"
| "n_mul (Fin a) PInf = (if a = 0 then NaN else if 0 < a then PInf else NInf)"
| "n_mul (Fin a) NInf = (if a = 0 then NaN else if 0 < a then NInf else PInf)"
| "n_mul PInf (Fin b) = (if b = 0 then NaN else if 0 < b then PInf else NInf)"
| "n_mul NInf (Fin b) = (if b = 0 then NaN else if 0 < b then NInf else PInf)"
| "n_mul PInf PInf = PInf"
| "n_mul NInf NInf = PInf"
| "n_mul PInf NInf = NInf"
| "n_mul NInf PInf = NInf"

text \<open>
  The operator \<open>/\<close>: a finite value over zero is an infinity of its sign, zero over zero
  and an infinity over an infinity are \<open>NaN\<close>, a finite value over an infinity is zero.
\<close>

fun n_div :: "number \<Rightarrow> number \<Rightarrow> number" where
  "n_div NaN _ = NaN"
| "n_div _ NaN = NaN"
| "n_div (Fin a) (Fin b) =
     (if b = 0 then (if a = 0 then NaN else if 0 < a then PInf else NInf)
      else Fin (a / b))"
| "n_div (Fin a) PInf = Fin 0"
| "n_div (Fin a) NInf = Fin 0"
| "n_div PInf (Fin b) = (if 0 \<le> b then PInf else NInf)"
| "n_div NInf (Fin b) = (if 0 \<le> b then NInf else PInf)"
| "n_div PInf PInf = NaN"
| "n_div NInf NInf = NaN"
| "n_div PInf NInf = NaN"
| "n_div NInf PInf = NaN"

text \<open>\<open>Math.max\<close> of two numbers: \<open>NaN\<close> when either is.\<close>

fun n_max :: "number \<Rightarrow> number \<Rightarrow> number" where
  "n_max NaN _ = NaN"
| "n_max _ NaN = NaN"
| "n_max (Fin a) (Fin b) = Fin (max a b)"
| "n_max PInf _ = PInf"
| "n_max _ PInf = PInf"
| "n_max NInf b = b"
| "n_max a NInf = a"

text \<open>The comparison \<open><=\<close>: false when either side is \<open>NaN\<close>.\<close>

fun n_le :: "number \<Rightarrow> number \<Rightarrow> bool" where
  "n_le NaN _ = False"
| "n_le _ NaN = False"
| "n_le (Fin a) (Fin b) = (a \<le> b)"
| "n_le NInf _ = True"
| "n_le _ PInf = True"
| "n_le PInf _ = False"
| "n_le _ NInf = False"


text \<open>\<open>Math.cos\<close> and \<open>Math.sin\<close>: \<open>NaN\<close> at an argument that is not finite.\<close>

fun n_cos :: "number \<Rightarrow> number" where
  "n_cos (Fin a) = Fin (cos a)"
| "n_cos _ = NaN"

fun n_sin :: "number \<Rightarrow> number" where
  "n_sin (Fin a) = Fin (sin a)"
| "n_sin _ = NaN"

section \<open>The collaborators: vector, bounds, pool\<close>

text \<open>
  Modelled from the spec: \<open>Vector2d\<close>, the 2D vector type (math/vector2.js is not part of
  the sources). A vector has two number components.
\<close>

record vector2d =
  vx :: number
  vy :: number

text \<open>Modelled from the spec: a vector is constructed as the zero vector.\<close>

definition new_Vector2d :: vector2d where
  "new_Vector2d = \<lparr>vx = Fin 0, vy = Fin 0\<rparr>"

text \<open>Modelled from the spec: \<open>Vector2d.set(x, y)\<close> assigns both components.\<close>

definition set_v :: "vector2d \<Rightarrow> number \<Rightarrow> number \<Rightarrow> vector2d" where
  "set_v v a b = v\<lparr>vx := a, vy := b\<rparr>"

text \<open>Modelled from the spec: \<open>Vector2d.scaleV(vector)\<close> multiplies component-wise.\<close>

definition scaleV_v :: "vector2d \<Rightarrow> vector2d \<Rightarrow> vector2d" where
  "scaleV_v v s = v\<lparr>vx := n_mul (vx v) (vx s), vy := n_mul (vy v) (vy s)\<rparr>"

text \<open>
  Modelled from the spec: \<open>Vector2d.rotate(angle, pivot)\<close> turns the vector
  counter-clockwise by an angle in radians about a pivot, the origin when the pivot is
  omitted.
\<close>

definition rotate_v :: "vector2d \<Rightarrow> number \<Rightarrow> vector2d option \<Rightarrow> vector2d" where
  "rotate_v v angle pivot =
     (let cx = (case pivot of None \<Rightarrow> Fin 0 | Some p \<Rightarrow> vx p);
          cy = (case pivot of None \<Rightarrow> Fin 0 | Some p \<Rightarrow> vy p);
          dx = n_sub (vx v) cx;
          dy = n_sub (vy v) cy;
          c = n_cos angle;
          s = n_sin angle
      in v\<lparr>vx := n_add (n_sub (n_mul c dx) (n_mul s dy)) cx,
            vy := n_add (n_add (n_mul s dx) (n_mul c dy)) cy\<rparr>)"

text \<open>
  Modelled from the spec: \<open>Bounds\<close>, the axis-aligned box (not part of the sources), kept
  as its two corners. The top-left corner is \<open>bmin\<close>.
\<close>

record bounds =
  bmin :: vector2d
  bmax :: vector2d

text \<open>Modelled from the spec: \<open>Bounds.setMinMax(minX, minY, maxX, maxY)\<close> assigns the corners.\<close>

definition setMinMax :: "bounds \<Rightarrow> number \<Rightarrow> number \<Rightarrow> number \<Rightarrow> number \<Rightarrow> bounds" where
  "setMinMax b minX minY maxX maxY =
     b\<lparr>bmin := \<lparr>vx = minX, vy = minY\<rparr>, bmax := \<lparr>vx = maxX, vy = maxY\<rparr>\<rparr>"

text \<open>Modelled from the spec: \<open>Bounds.translate(dx, dy)\<close> adds the offset to both corners.\<close>

definition translate_b :: "bounds \<Rightarrow> number \<Rightarrow> number \<Rightarrow> bounds" where
  "translate_b b dx dy =
     b\<lparr>bmin := \<lparr>vx = n_add (vx (bmin b)) dx, vy = n_add (vy (bmin b)) dy\<rparr>,
       bmax := \<lparr>vx = n_add (vx (bmax b)) dx, vy = n_add (vy (bmax b)) dy\<rparr>\<rparr>"

text \<open>Modelled from the spec: the size of a bounds is the difference of its corners.\<close>

definition width_b :: "bounds \<Rightarrow> number" where
  "width_b b = n_sub (vx (bmax b)) (vx (bmin b))"

definition height_b :: "bounds \<Rightarrow> number" where
  "height_b b = n_sub (vy (bmax b)) (vy (bmin b))"

text \<open>
  Modelled from the spec: \<open>Bounds.shift(point)\<close> moves the position of the bounds (its
  top-left corner) to the point and keeps the size.
\<close>

definition shift_b :: "bounds \<Rightarrow> vector2d \<Rightarrow> bounds" where
  "shift_b b p =
     b\<lparr>bmin := \<lparr>vx = vx p, vy = vy p\<rparr>,
       bmax := \<lparr>vx = n_add (vx p) (width_b b), vy = n_add (vy p) (height_b b)\<rparr>\<rparr>"

text \<open>
  Modelled from the spec: the pool (system/pooling.js is not part of the sources).
  Bounds objects are shared by reference, so they live in a store, at addresses.
\<close>

type_synonym addr = nat

record store =
  cells :: "addr \<Rightarrow> bounds"
  next_free :: addr

text \<open>
  Modelled from the spec: \<open>pool.pull("Bounds")\<close> hands out a ready-to-use instance that
  nobody holds: the next free address. What a recycled instance contains is left open
  (the cell keeps whatever it held).
\<close>

definition pull :: "store \<Rightarrow> addr \<times> store" where
  "pull s = (next_free s, s\<lparr>next_free := Suc (next_free s)\<rparr>)"

text \<open>A method call on the bounds at an address: the cell is replaced by the result.\<close>

definition on_bounds :: "addr \<Rightarrow> (bounds \<Rightarrow> bounds) \<Rightarrow> store \<Rightarrow> store" where
  "on_bounds a f s = s\<lparr>cells := (cells s)(a := f (cells s a))\<rparr>"

section \<open>The ellipse\<close>

text \<open>
  The fields of the class. The four vectors are created by the constructor and never
  handed out by a method, so they are values of the record; \<open>_bounds\<close> (here
  \<open>bounds_ref\<close>) is a reference into the store, \<open>None\<close> while it is \<open>undefined\<close>.
  Every method returns \<open>this\<close>: here, the updated ellipse together with the updated store.
  The method \<open>rotate\<close> is \<open>rotate_e\<close>, since lists have a \<open>rotate\<close> already.
\<close>

record ellipse =
  pos :: vector2d
  bounds_ref :: "addr option"
  radius :: number
  radiusV :: vector2d
  radiusSq :: vector2d
  ratio :: vector2d
  shapeType :: string

text \<open>
  \<open>translate\<close> and \<open>contains\<close> look at \<open>arguments.length\<close>: two scalars, or else one
  vector-like value.
\<close>

datatype arguments = XY number number | Vec vector2d

fun arg_x :: "arguments \<Rightarrow> number" where
  "arg_x (XY a b) = a"
| "arg_x (Vec v) = vx v"

fun arg_y :: "arguments \<Rightarrow> number" where
  "arg_y (XY a b) = b"
| "arg_y (Vec v) = vy v"

text \<open>
  \<open>getBounds\<close> (line 253): the cached bounds, pulled from the pool on the first call. It
  returns the address together with the ellipse, whose \<open>_bounds\<close> the first call sets.
\<close>

definition getBounds :: "ellipse \<Rightarrow> store \<Rightarrow> addr \<times> ellipse \<times> store" where
  "getBounds e s =
     (case bounds_ref e of
        None \<Rightarrow> (let (a, s') = pull s in (a, e\<lparr>bounds_ref := Some a\<rparr>, s'))
      | Some a \<Rightarrow> (a, e, s))"

text \<open>
  \<open>setShape\<close> (line 88), statement by statement; \<open>e1\<close> to \<open>e7\<close> are \<open>this\<close> after each
  assignment. Line 100 is kept as written, with \<open>x + h\<close> as the fourth argument.
\<close>

definition setShape ::
  "ellipse \<Rightarrow> number \<Rightarrow> number \<Rightarrow> number \<Rightarrow> number \<Rightarrow> store \<Rightarrow> ellipse \<times> store" where
  "setShape e x y w h s =
     (let hW = n_div w (Fin 2);
          hH = n_div h (Fin 2);
          e1 = e\<lparr>pos := set_v (pos e) x y\<rparr>;
          e2 = e1\<lparr>radius := n_max hW hH\<rparr>;
          e3 = e2\<lparr>ratio := set_v (ratio e2) (n_div hW (radius e2)) (n_div hH (radius e2))\<rparr>;
          e4 = e3\<lparr>radiusV := scaleV_v (set_v (radiusV e3) (radius e3) (radius e3)) (ratio e3)\<rparr>;
          r = n_mul (radius e4) (radius e4);
          e5 = e4\<lparr>radiusSq := scaleV_v (set_v (radiusSq e4) r r) (ratio e4)\<rparr>;
          (a, e6, s1) = getBounds e5 s;
          s2 = on_bounds a (\<lambda>b. setMinMax b x y (n_add x w) (n_add x h)) s1;
          (a', e7, s3) = getBounds e6 s2;
          s4 = on_bounds a'
                 (\<lambda>b. translate_b b (n_neg (vx (radiusV e7))) (n_neg (vy (radiusV e7)))) s3
      in (e7, s4))"

text \<open>The constructor (line 15): the initial field values, then \<open>setShape\<close>.\<close>

definition new_Ellipse ::
  "number \<Rightarrow> number \<Rightarrow> number \<Rightarrow> number \<Rightarrow> store \<Rightarrow> ellipse \<times> store" where
  "new_Ellipse x y w h s =
     setShape \<lparr>pos = new_Vector2d, bounds_ref = None, radius = NaN,
               radiusV = new_Vector2d, radiusSq = new_Vector2d, ratio = new_Vector2d,
               shapeType = ''Ellipse''\<rparr> x y w h s"

text \<open>\<open>onResetEvent\<close> (line 73).\<close>

definition onResetEvent ::
  "ellipse \<Rightarrow> number \<Rightarrow> number \<Rightarrow> number \<Rightarrow> number \<Rightarrow> store \<Rightarrow> ellipse \<times> store" where
  "onResetEvent e x y w h s = setShape e x y w h s"

text \<open>\<open>rotate\<close> (line 116); the pivot is \<open>None\<close> when the argument is omitted.\<close>

definition rotate_e :: "ellipse \<Rightarrow> number \<Rightarrow> vector2d option \<Rightarrow> store \<Rightarrow> ellipse \<times> store" where
  "rotate_e e angle v s =
     (let e1 = e\<lparr>pos := rotate_v (pos e) angle v\<rparr>;
          (a, e2, s1) = getBounds e1 s;
          s2 = on_bounds a (\<lambda>b. shift_b b (pos e2)) s1;
          (a', e3, s3) = getBounds e2 s2;
          s4 = on_bounds a'
                 (\<lambda>b. translate_b b (n_neg (vx (radiusV e3))) (n_neg (vy (radiusV e3)))) s3
      in (e3, s4))"

text \<open>\<open>scale\<close> (line 133); \<open>y\<close> is \<open>None\<close> when it is \<open>undefined\<close>.\<close>

definition scale :: "ellipse \<Rightarrow> number \<Rightarrow> number option \<Rightarrow> store \<Rightarrow> ellipse \<times> store" where
  "scale e x y s =
     (let y' = (case y of Some b \<Rightarrow> b | None \<Rightarrow> x)
      in setShape e (vx (pos e)) (vy (pos e))
           (n_mul (n_mul (vx (radiusV e)) (Fin 2)) x)
           (n_mul (n_mul (vy (radiusV e)) (Fin 2)) y') s)"

text \<open>\<open>scaleV\<close> (line 151).\<close>

definition scaleV :: "ellipse \<Rightarrow> vector2d \<Rightarrow> store \<Rightarrow> ellipse \<times> store" where
  "scaleV e v s = scale e (vx v) (Some (vy v)) s"

text \<open>\<open>transform\<close> (line 163) ignores its argument and returns \<open>this\<close>.\<close>

definition transform :: "ellipse \<Rightarrow> store \<Rightarrow> ellipse \<times> store" where
  "transform e s = (e, s)"

text \<open>\<open>translate\<close> (line 185).\<close>

definition translate :: "ellipse \<Rightarrow> arguments \<Rightarrow> store \<Rightarrow> ellipse \<times> store" where
  "translate e args s =
     (let x' = arg_x args;
          y' = arg_y args;
          e1 = e\<lparr>pos := (pos e)\<lparr>vx := n_add (vx (pos e)) x'\<rparr>\<rparr>;
          e2 = e1\<lparr>pos := (pos e1)\<lparr>vy := n_add (vy (pos e1)) y'\<rparr>\<rparr>;
          (a, e3, s1) = getBounds e2 s
      in (e3, on_bounds a (\<lambda>b. translate_b b x' y') s1))"

text \<open>\<open>contains\<close> (line 223).\<close>

definition contains :: "ellipse \<Rightarrow> arguments \<Rightarrow> bool" where
  "contains e args =
     (let x' = n_sub (arg_x args) (vx (pos e));
          y' = n_sub (arg_y args) (vy (pos e))
      in n_le (n_add (n_div (n_mul x' x') (vx (radiusSq e)))
                     (n_div (n_mul y' y') (vy (radiusSq e)))) (Fin 1))"

text \<open>\<open>clone\<close> (line 267): a new ellipse, built by the constructor.\<close>

definition clone :: "ellipse \<Rightarrow> store \<Rightarrow> ellipse \<times> store" where
  "clone e s =
     new_Ellipse (vx (pos e)) (vy (pos e))
       (n_mul (vx (radiusV e)) (Fin 2)) (n_mul (vy (radiusV e)) (Fin 2)) s"

text \<open>The bounds an ellipse holds: the object \<open>getBounds()\<close> returns, read from the store.\<close>

definition bounds_of :: "ellipse \<Rightarrow> store \<Rightarrow> bounds" where
  "bounds_of e s = (case getBounds e s of (a, e', s') \<Rightarrow> cells s' a)"


section \<open>Closed forms, call sequences, reachable ellipses\<close>

text \<open>
  What lines 89 to 97 of \<open>setShape\<close> store in \<open>radius\<close>, \<open>ratio\<close>, \<open>radiusV\<close> and
  \<open>radiusSq\<close>, as functions of the width and height passed in (\<open>c\<close> is the one of the two
  the component belongs to).
\<close>

definition major_radius :: "number \<Rightarrow> number \<Rightarrow> number" where
  "major_radius w h = n_max (n_div w (Fin 2)) (n_div h (Fin 2))"

definition axis_ratio :: "number \<Rightarrow> number \<Rightarrow> number \<Rightarrow> number" where
  "axis_ratio c w h = n_div (n_div c (Fin 2)) (major_radius w h)"

definition semi_axis :: "number \<Rightarrow> number \<Rightarrow> number \<Rightarrow> number" where
  "semi_axis c w h = n_mul (major_radius w h) (axis_ratio c w h)"

definition normaliser :: "number \<Rightarrow> number \<Rightarrow> number \<Rightarrow> number" where
  "normaliser c w h =
     n_mul (n_mul (major_radius w h) (major_radius w h)) (axis_ratio c w h)"

text \<open>The address \<open>getBounds\<close> returns: the cached one, or else the one the pool hands out.\<close>

definition the_addr :: "ellipse \<Rightarrow> store \<Rightarrow> addr" where
  "the_addr e s = (case bounds_ref e of None \<Rightarrow> next_free s | Some a \<Rightarrow> a)"

text \<open>The mutators of the class, as calls that can be applied to an ellipse.\<close>

datatype mutation =
    SetShape number number number number
  | OnResetEvent number number number number
  | Rotate number "vector2d option"
  | Scale number "number option"
  | ScaleV vector2d
  | Transform
  | Translate arguments

fun apply_m :: "mutation \<Rightarrow> ellipse \<Rightarrow> store \<Rightarrow> ellipse \<times> store" where
  "apply_m (SetShape x y w h) e s = setShape e x y w h s"
| "apply_m (OnResetEvent x y w h) e s = onResetEvent e x y w h s"
| "apply_m (Rotate angle v) e s = rotate_e e angle v s"
| "apply_m (Scale x y) e s = scale e x y s"
| "apply_m (ScaleV v) e s = scaleV e v s"
| "apply_m Transform e s = transform e s"
| "apply_m (Translate args) e s = translate e args s"

text \<open>A sequence of such calls, each on the result of the one before.\<close>

fun apply_all :: "mutation list \<Rightarrow> ellipse \<Rightarrow> store \<Rightarrow> ellipse \<times> store" where
  "apply_all [] e s = (e, s)"
| "apply_all (m # ms) e s = (case apply_m m e s of (e', s') \<Rightarrow> apply_all ms e' s')"

text \<open>
  The ellipses a program can hold: built by the constructor, changed only through the
  mutators, while the rest of the program pulls from the pool and works on other bounds.
\<close>

inductive reach :: "ellipse \<Rightarrow> store \<Rightarrow> bool" where
  constructed: "new_Ellipse x y w h s = (e, s') \<Longrightarrow> reach e s'"
| mutated: "reach e s \<Longrightarrow> apply_m m e s = (e', s') \<Longrightarrow> reach e' s'"
| elsewhere: "reach e s \<Longrightarrow> next_free s \<le> next_free s' \<Longrightarrow>
     cells s' (the_addr e s) = cells s (the_addr e s) \<Longrightarrow> reach e s'"

text \<open>A store from which nothing has been pulled yet.\<close>

definition store0 :: store where
  "store0 = \<lparr>cells = (\<lambda>a. \<lparr>bmin = new_Vector2d, bmax = new_Vector2d\<rparr>), next_free = 0\<rparr>"

text \<open>The bounds held by the ellipse a call returns, read from the store it returns.\<close>

definition held_bounds :: "ellipse \<times> store \<Rightarrow> bounds" where
  "held_bounds p = bounds_of (fst p) (snd p)"

text \<open>The ellipse \<open>new Ellipse(0, 0, 4, 2)\<close>, built on that store.\<close>

definition ellipse_4_2 :: "ellipse \<times> store" where
  "ellipse_4_2 = new_Ellipse (Fin 0) (Fin 0) (Fin 4) (Fin 2) store0"

text \<open>
  An ellipse whose four derived fields are the ones \<open>setShape\<close> stores for the width
  \<open>w\<close> and the height \<open>h\<close>.
\<close>

definition shaped :: "ellipse \<Rightarrow> number \<Rightarrow> number \<Rightarrow> bool" where
  "shaped e w h \<longleftrightarrow>
     radius e = major_radius w h \<and>
     ratio e = \<lparr>vx = axis_ratio w w h, vy = axis_ratio h w h\<rparr> \<and>
     radiusV e = \<lparr>vx = semi_axis w w h, vy = semi_axis h w h\<rparr> \<and>
     radiusSq e = \<lparr>vx = normaliser w w h, vy = normaliser h w h\<rparr>"

text \<open>
  \<open>scale\<close> as the specification words it: the full width and height are re-derived from
  the current \<open>radiusV\<close>, times the factors, and \<open>setShape\<close> is called with the current
  centre.
\<close>

definition scale_spec :: "ellipse \<Rightarrow> number \<Rightarrow> number \<Rightarrow> store \<Rightarrow> ellipse \<times> store" where
  "scale_spec e sx sy s =
     (let newW = n_mul (n_mul (vx (radiusV e)) (Fin 2)) sx;
          newH = n_mul (n_mul (vy (radiusV e)) (Fin 2)) sy
      in setShape e (vx (pos e)) (vy (pos e)) newW newH s)"

section \<open>Rounding\<close>

text \<open>
  The numbers above add and subtract exactly; the program's numbers are binary64 values,
  and each operation rounds its exact result to the nearest of them, ties to the even
  significand. \<open>binary64\<close> is that rounding of a real in the normal range (53 significant
  bits; overflow and subnormal values are left out), and \<open>f_add\<close>, \<open>f_sub\<close>, \<open>f_mul\<close>,
  \<open>f_div\<close> are the four operators with it (\<open>f_div\<close> is used at divisors other than
  zero only). They serve to show where a statement that holds over exact arithmetic
  stops holding in the program.
\<close>

definition round_even :: "real \<Rightarrow> int" where
  "round_even q =
     (let f = \<lfloor>q\<rfloor>; d = q - of_int f
      in if d < 1 / 2 then f else if 1 / 2 < d then f + 1 else if even f then f else f + 1)"

definition binary64 :: "real \<Rightarrow> real" where
  "binary64 x =
     (if x = 0 then 0
      else let k = \<lfloor>log 2 \<bar>x\<bar>\<rfloor> - 52
           in of_int (round_even (x / 2 powr of_int k)) * 2 powr of_int k)"

definition f_add :: "real \<Rightarrow> real \<Rightarrow> real" where
  "f_add a b = binary64 (a + b)"

definition f_sub :: "real \<Rightarrow> real \<Rightarrow> real" where
  "f_sub a b = binary64 (a - b)"

definition f_mul :: "real \<Rightarrow> real \<Rightarrow> real" where
  "f_mul a b = binary64 (a * b)"

definition f_div :: "real \<Rightarrow> real \<Rightarrow> real" where
  "f_div a b = binary64 (a / b)"

text \<open>The binary64 value nearest to 0.3.\<close>

definition d03 :: real where
  "d03 = 5404319552844595 / 2 ^ 54"

section \<open>What setShape stores\<close>

lemma vec_eta [simp]: "\<lparr>vx = vx v, vy = vy v\<rparr> = (v::vector2d)"
  by simp

lemma bounds_of_eq: "bounds_of e s = cells s (the_addr e s)"
  by (simp add: bounds_of_def getBounds_def pull_def the_addr_def split: option.split)

lemma setShape_pos: "pos (fst (setShape e x y w h s)) = \<lparr>vx = x, vy = y\<rparr>"
  by (simp add: setShape_def getBounds_def pull_def set_v_def Let_def split: option.split)

lemma setShape_radius: "radius (fst (setShape e x y w h s)) = major_radius w h"
  by (simp add: setShape_def getBounds_def pull_def major_radius_def Let_def split: option.split)

lemma setShape_ratio:
  "ratio (fst (setShape e x y w h s)) = \<lparr>vx = axis_ratio w w h, vy = axis_ratio h w h\<rparr>"
  by (simp add: setShape_def getBounds_def pull_def set_v_def major_radius_def axis_ratio_def
      Let_def split: option.split)

lemma setShape_radiusV:
  "radiusV (fst (setShape e x y w h s)) = \<lparr>vx = semi_axis w w h, vy = semi_axis h w h\<rparr>"
  by (simp add: setShape_def getBounds_def pull_def set_v_def scaleV_v_def major_radius_def
      axis_ratio_def semi_axis_def Let_def split: option.split)

lemma setShape_radiusSq:
  "radiusSq (fst (setShape e x y w h s)) = \<lparr>vx = normaliser w w h, vy = normaliser h w h\<rparr>"
  by (simp add: setShape_def getBounds_def pull_def set_v_def scaleV_v_def major_radius_def
      axis_ratio_def normaliser_def Let_def split: option.split)

lemma setShape_bounds_ref: "bounds_ref (fst (setShape e x y w h s)) = Some (the_addr e s)"
  by (simp add: setShape_def getBounds_def pull_def the_addr_def Let_def split: option.split)

lemma setShape_shapeType: "shapeType (fst (setShape e x y w h s)) = shapeType e"
  by (simp add: setShape_def getBounds_def pull_def Let_def split: option.split)

lemma setShape_next_free:
  "next_free (snd (setShape e x y w h s)) =
     (case bounds_ref e of None \<Rightarrow> Suc (next_free s) | Some a \<Rightarrow> next_free s)"
  by (simp add: setShape_def getBounds_def pull_def on_bounds_def Let_def split: option.split)

lemma setShape_cells:
  "cells (snd (setShape e x y w h s)) =
     (cells s)(the_addr e s :=
        translate_b (setMinMax (cells s (the_addr e s)) x y (n_add x w) (n_add x h))
          (n_neg (semi_axis w w h)) (n_neg (semi_axis h w h)))"
  by (simp add: setShape_def getBounds_def pull_def on_bounds_def the_addr_def set_v_def
      scaleV_v_def major_radius_def axis_ratio_def semi_axis_def Let_def split: option.split)

section \<open>The other mutators, and what they leave alone\<close>

lemma scale_as_setShape:
  "scale e sx sy s =
     setShape e (vx (pos e)) (vy (pos e))
       (n_mul (n_mul (vx (radiusV e)) (Fin 2)) sx)
       (n_mul (n_mul (vy (radiusV e)) (Fin 2)) (case sy of Some b \<Rightarrow> b | None \<Rightarrow> sx)) s"
  by (simp add: scale_def)

lemma translate_fst:
  "fst (translate e args s) =
     e\<lparr>pos := \<lparr>vx = n_add (vx (pos e)) (arg_x args), vy = n_add (vy (pos e)) (arg_y args)\<rparr>,
       bounds_ref := Some (the_addr e s)\<rparr>"
  by (simp add: translate_def getBounds_def pull_def the_addr_def Let_def split: option.split)

lemma translate_snd:
  "snd (translate e args s) =
     s\<lparr>cells := (cells s)(the_addr e s :=
          translate_b (cells s (the_addr e s)) (arg_x args) (arg_y args)),
       next_free := (case bounds_ref e of None \<Rightarrow> Suc (next_free s) | Some a \<Rightarrow> next_free s)\<rparr>"
  by (simp add: translate_def getBounds_def pull_def on_bounds_def the_addr_def Let_def
      split: option.split)

lemma rotate_fst:
  "fst (rotate_e e angle v s) =
     e\<lparr>pos := rotate_v (pos e) angle v, bounds_ref := Some (the_addr e s)\<rparr>"
  by (simp add: rotate_e_def getBounds_def pull_def the_addr_def Let_def split: option.split)

lemma rotate_snd:
  "snd (rotate_e e angle v s) =
     s\<lparr>cells := (cells s)(the_addr e s :=
          translate_b (shift_b (cells s (the_addr e s)) (rotate_v (pos e) angle v))
            (n_neg (vx (radiusV e))) (n_neg (vy (radiusV e)))),
       next_free := (case bounds_ref e of None \<Rightarrow> Suc (next_free s) | Some a \<Rightarrow> next_free s)\<rparr>"
  by (simp add: rotate_e_def getBounds_def pull_def on_bounds_def the_addr_def Let_def
      split: option.split)

lemma the_addr_Some: "bounds_ref e = Some a \<Longrightarrow> the_addr e s = a"
  by (simp add: the_addr_def)

lemma apply_m_bounds_ref:
  "bounds_ref e = Some a \<Longrightarrow> bounds_ref (fst (apply_m m e s)) = Some a"
  by (cases m)
     (simp_all add: setShape_bounds_ref onResetEvent_def scale_as_setShape scaleV_def
        transform_def translate_fst rotate_fst the_addr_Some)

lemma apply_m_next_free:
  "bounds_ref e = Some a \<Longrightarrow> next_free (snd (apply_m m e s)) = next_free s"
  by (cases m)
     (simp_all add: setShape_next_free onResetEvent_def scale_as_setShape scaleV_def
        transform_def translate_snd rotate_snd)

lemma apply_m_frame:
  "bounds_ref e = Some a \<Longrightarrow> b \<noteq> a \<Longrightarrow> cells (snd (apply_m m e s)) b = cells s b"
  by (cases m)
     (simp_all add: setShape_cells onResetEvent_def scale_as_setShape scaleV_def
        transform_def translate_snd rotate_snd the_addr_Some)

lemma new_Ellipse_bounds_ref: "bounds_ref (fst (new_Ellipse x y w h s)) = Some (next_free s)"
  by (simp add: new_Ellipse_def setShape_bounds_ref the_addr_def)

lemma new_Ellipse_next_free: "next_free (snd (new_Ellipse x y w h s)) = Suc (next_free s)"
  by (simp add: new_Ellipse_def setShape_next_free)

lemma new_Ellipse_frame: "b \<noteq> next_free s \<Longrightarrow> cells (snd (new_Ellipse x y w h s)) b = cells s b"
  by (simp add: new_Ellipse_def setShape_cells the_addr_def)

lemma reach_allocated: "reach e s \<Longrightarrow> \<exists>a. bounds_ref e = Some a \<and> a < next_free s"
proof (induction rule: reach.induct)
  case (constructed x y w h s e s')
  have "bounds_ref (fst (new_Ellipse x y w h s)) = Some (next_free s)"
    by (rule new_Ellipse_bounds_ref)
  moreover have "next_free (snd (new_Ellipse x y w h s)) = Suc (next_free s)"
    by (rule new_Ellipse_next_free)
  ultimately show ?case using constructed by simp
next
  case (mutated e s m e' s')
  then obtain a where a: "bounds_ref e = Some a" "a < next_free s" by blast
  have "bounds_ref (fst (apply_m m e s)) = Some a" using a(1) by (rule apply_m_bounds_ref)
  moreover have "next_free (snd (apply_m m e s)) = next_free s"
    using a(1) by (rule apply_m_next_free)
  ultimately show ?case using mutated.hyps(2) a(2) by simp
next
  case (elsewhere e s s')
  then show ?case by force
qed

lemma setShape_shaped: "shaped (fst (setShape e x y w h s)) w h"
  by (simp add: shaped_def setShape_radius setShape_ratio setShape_radiusV setShape_radiusSq)

lemma apply_m_shaped: "shaped e w h \<Longrightarrow> \<exists>w' h'. shaped (fst (apply_m m e s)) w' h'"
proof (cases m)
  case (Rotate angle v)
  assume "shaped e w h"
  then have "shaped (fst (rotate_e e angle v s)) w h" by (simp add: shaped_def rotate_fst)
  then show ?thesis using Rotate by auto
next
  case (Translate args)
  assume "shaped e w h"
  then have "shaped (fst (translate e args s)) w h" by (simp add: shaped_def translate_fst)
  then show ?thesis using Translate by auto
next
  case Transform
  assume "shaped e w h"
  then show ?thesis using Transform by (auto simp: transform_def)
qed (auto simp: onResetEvent_def scale_as_setShape scaleV_def intro: setShape_shaped)

lemma reach_shaped: "reach e s \<Longrightarrow> \<exists>w h. shaped e w h"
proof (induction rule: reach.induct)
  case (constructed x y w h s e s')
  have "shaped (fst (new_Ellipse x y w h s)) w h"
    unfolding new_Ellipse_def by (rule setShape_shaped)
  then show ?case using constructed by auto
next
  case (mutated e s m e' s')
  then obtain w h where "shaped e w h" by blast
  then have "\<exists>w' h'. shaped (fst (apply_m m e s)) w' h'" by (rule apply_m_shaped)
  then show ?case using mutated.hyps(2) by simp
next
  case (elsewhere e s s')
  then show ?case by simp
qed

lemma semi_axis_again:
  "semi_axis (n_mul (semi_axis w w h) (Fin 2))
      (n_mul (semi_axis w w h) (Fin 2)) (n_mul (semi_axis h w h) (Fin 2)) = semi_axis w w h"
  "semi_axis (n_mul (semi_axis h w h) (Fin 2))
      (n_mul (semi_axis w w h) (Fin 2)) (n_mul (semi_axis h w h) (Fin 2)) = semi_axis h w h"
  by (cases w; cases h;
      auto simp: major_radius_def axis_ratio_def semi_axis_def max_def split: if_splits)+

lemma normaliser_again:
  "normaliser (n_mul (semi_axis w w h) (Fin 2))
      (n_mul (semi_axis w w h) (Fin 2)) (n_mul (semi_axis h w h) (Fin 2)) = normaliser w w h"
  "normaliser (n_mul (semi_axis h w h) (Fin 2))
      (n_mul (semi_axis w w h) (Fin 2)) (n_mul (semi_axis h w h) (Fin 2)) = normaliser h w h"
  by (cases w; cases h;
      auto simp: major_radius_def axis_ratio_def semi_axis_def normaliser_def max_def
           split: if_splits)+

lemma reach_radiusSq:
  assumes "reach e s"
  shows "radiusSq e = \<lparr>vx = n_mul (n_mul (radius e) (radius e)) (vx (ratio e)),
                        vy = n_mul (n_mul (radius e) (radius e)) (vy (ratio e))\<rparr>"
proof -
  from assms obtain w h where "shaped e w h" using reach_shaped by blast
  then show ?thesis by (simp add: shaped_def normaliser_def)
qed

lemma reach_new: "reach (fst (new_Ellipse x y w h s)) (snd (new_Ellipse x y w h s))"
  by (rule reach.constructed [of x y w h s]) simp

lemma apply_all_bounds_ref:
  "bounds_ref e = Some a \<Longrightarrow> bounds_ref (fst (apply_all ms e s)) = Some a"
proof (induction ms arbitrary: e s)
  case Nil
  then show ?case by simp
next
  case (Cons m ms)
  have "bounds_ref (fst (apply_m m e s)) = Some a"
    using Cons.prems by (rule apply_m_bounds_ref)
  then have "bounds_ref (fst (apply_all ms (fst (apply_m m e s)) (snd (apply_m m e s)))) = Some a"
    by (rule Cons.IH)
  then show ?case by (simp add: case_prod_beta)
qed

lemma apply_all_frame:
  "bounds_ref e = Some a \<Longrightarrow> b \<noteq> a \<Longrightarrow> cells (snd (apply_all ms e s)) b = cells s b"
proof (induction ms arbitrary: e s)
  case Nil
  then show ?case by simp
next
  case (Cons m ms)
  have ref: "bounds_ref (fst (apply_m m e s)) = Some a"
    using Cons.prems(1) by (rule apply_m_bounds_ref)
  have "cells (snd (apply_all ms (fst (apply_m m e s)) (snd (apply_m m e s)))) b =
          cells (snd (apply_m m e s)) b"
    using ref Cons.prems(2) by (rule Cons.IH)
  also have "\<dots> = cells s b"
    using Cons.prems by (rule apply_m_frame)
  finally show ?case by (simp add: case_prod_beta)
qed

lemma clone_fields:
  assumes "shaped e w h"
  shows "pos (fst (clone e s)) = pos e"
    and "radiusV (fst (clone e s)) = radiusV e"
    and "radiusSq (fst (clone e s)) = radiusSq e"
proof -
  have rv: "radiusV e = \<lparr>vx = semi_axis w w h, vy = semi_axis h w h\<rparr>"
    and rs: "radiusSq e = \<lparr>vx = normaliser w w h, vy = normaliser h w h\<rparr>"
    using assms by (simp_all add: shaped_def)
  show "pos (fst (clone e s)) = pos e"
    by (simp add: clone_def new_Ellipse_def setShape_pos)
  show "radiusV (fst (clone e s)) = radiusV e"
    by (simp add: clone_def new_Ellipse_def setShape_radiusV rv semi_axis_again)
  show "radiusSq (fst (clone e s)) = radiusSq e"
    by (simp add: clone_def new_Ellipse_def setShape_radiusSq rv rs normaliser_again)
qed

lemma contains_cong:
  "pos c = pos e \<Longrightarrow> radiusSq c = radiusSq e \<Longrightarrow> contains c args = contains e args"
  by (simp add: contains_def)


lemma n_add_back: "n_add (n_add p (Fin d)) (Fin (- d)) = p"
  by (cases p) simp_all

lemma bounds_both: "(b::bounds)\<lparr>bmin := p, bmax := q\<rparr> = \<lparr>bmin = p, bmax = q\<rparr>"
  by (cases b) simp

lemma clone_next_free: "next_free (snd (clone e s)) = Suc (next_free s)"
  by (simp add: clone_def new_Ellipse_next_free)

lemma clone_cells:
  "cells (snd (clone e s)) =
     (cells s)(next_free s :=
        \<lparr>bmin = \<lparr>vx = n_add (vx (pos e)) (n_neg (vx (radiusV (fst (clone e s))))),
                  vy = n_add (vy (pos e)) (n_neg (vy (radiusV (fst (clone e s)))))\<rparr>,
          bmax = \<lparr>vx = n_add (n_add (vx (pos e)) (n_mul (vx (radiusV e)) (Fin 2)))
                              (n_neg (vx (radiusV (fst (clone e s))))),
                  vy = n_add (n_add (vx (pos e)) (n_mul (vy (radiusV e)) (Fin 2)))
                              (n_neg (vy (radiusV (fst (clone e s)))))\<rparr>\<rparr>)"
  by (simp add: clone_def new_Ellipse_def setShape_cells setShape_radiusV the_addr_def
      translate_b_def setMinMax_def bounds_both)

lemma clone_reach: "reach (fst (clone e s)) (snd (clone e s))"
  unfolding clone_def by (rule reach_new)

lemma clone_derived:
  "radius (fst (clone e s)) =
     major_radius (n_mul (vx (radiusV e)) (Fin 2)) (n_mul (vy (radiusV e)) (Fin 2))"
  "shapeType (fst (clone e s)) = ''Ellipse''"
  by (simp_all add: clone_def new_Ellipse_def setShape_radius setShape_shapeType)

text \<open>The definitions a concrete call is evaluated with.\<close>

lemmas eval_defs = new_Ellipse_def setShape_def getBounds_def pull_def on_bounds_def
  setMinMax_def translate_b_def set_v_def scaleV_v_def new_Vector2d_def store0_def
  bounds_of_eq the_addr_def width_b_def height_b_def n_sub_def Let_def

lemma ellipse_4_2_fields:
  "pos (fst ellipse_4_2) = \<lparr>vx = Fin 0, vy = Fin 0\<rparr>"
  "radiusV (fst ellipse_4_2) = \<lparr>vx = Fin 2, vy = Fin 1\<rparr>"
  "bounds_ref (fst ellipse_4_2) = Some 0"
  "next_free (snd ellipse_4_2) = 1"
  "bounds_of (fst ellipse_4_2) (snd ellipse_4_2) =
     \<lparr>bmin = \<lparr>vx = Fin (- 2), vy = Fin (- 1)\<rparr>, bmax = \<lparr>vx = Fin 2, vy = Fin 1\<rparr>\<rparr>"
  by (simp_all add: ellipse_4_2_def eval_defs)


section \<open>Rounding in the bounds of a rotated ellipse\<close>

text \<open>
  How \<open>binary64\<close> acts on a value given with its 53-bit significand.
\<close>

lemma binary64_scaled:
  assumes "2 ^ 52 \<le> \<bar>m\<bar>" and "\<bar>m\<bar> < 2 ^ 53"
  shows "binary64 (m * 2 powr of_int k) = of_int (round_even m) * 2 powr of_int k"
proof -
  let ?x = "m * 2 powr of_int k"
  have m0: "m \<noteq> 0" using assms(1) by auto
  then have x0: "?x \<noteq> 0" by simp
  have ax: "\<bar>?x\<bar> = \<bar>m\<bar> * 2 powr of_int k" by (simp add: abs_mult)
  have lo: "2 powr (of_int (52 + k)) \<le> \<bar>?x\<bar>"
  proof -
    have "(2::real) powr (of_int (52 + k)) = 2 powr 52 * 2 powr of_int k"
      by (simp add: powr_add)
    also have "\<dots> = 2 ^ 52 * 2 powr of_int k"
      by simp
    also have "\<dots> \<le> \<bar>m\<bar> * 2 powr of_int k"
      using assms(1) by (intro mult_right_mono) simp_all
    finally show ?thesis using ax by simp
  qed
  have hi: "\<bar>?x\<bar> < 2 powr (of_int (52 + k) + 1)"
  proof -
    have "\<bar>m\<bar> * 2 powr of_int k < 2 ^ 53 * 2 powr of_int k"
      using assms(2) by (intro mult_strict_right_mono) simp_all
    also have "\<dots> = 2 powr 53 * 2 powr of_int k"
      by simp
    also have "\<dots> = 2 powr (53 + of_int k)"
      by (rule powr_add [symmetric])
    also have "\<dots> = 2 powr (of_int (52 + k) + 1)"
      by simp
    finally show ?thesis using ax by simp
  qed
  have "\<lfloor>log 2 \<bar>?x\<bar>\<rfloor> = 52 + k"
    using x0 lo hi by (subst floor_log_eq_powr_iff) simp_all
  then show ?thesis using x0 by (simp add: binary64_def Let_def)
qed

lemma binary64_eq:
  assumes "x = m / 2 ^ n" and "2 ^ 52 \<le> \<bar>m\<bar>" and "\<bar>m\<bar> < 2 ^ 53" and "round_even m = z"
  shows "binary64 x = of_int z / 2 ^ n"
proof -
  have p: "(2::real) powr of_int (- int n) = 1 / 2 ^ n"
    by (simp add: powr_minus powr_realpow inverse_eq_divide)
  have "binary64 (m * 2 powr of_int (- int n)) = of_int (round_even m) * 2 powr of_int (- int n)"
    using assms(2,3) by (rule binary64_scaled)
  then show ?thesis using assms(1,4) p by simp
qed

lemma binary64_0 [simp]: "binary64 0 = 0"
  by (simp add: binary64_def)

lemma binary64_1 [simp]: "binary64 1 = 1"
  using binary64_eq [of 1 "2 ^ 52" 52 "2 ^ 52"] by (simp add: round_even_def)

lemma binary64_d03 [simp]: "binary64 d03 = d03"
  using binary64_eq [of d03 5404319552844595 54 5404319552844595]
  by (simp add: round_even_def d03_def)

lemma binary64_three_tenths: "binary64 (3 / 10) = d03"
  using binary64_eq [of "3 / 10" "3 * 2 ^ 54 / 10" 54 5404319552844595]
  by (simp add: round_even_def d03_def)

lemma half_d03: "f_div d03 2 = d03 / 2"
  using binary64_eq [of "d03 / 2" 5404319552844595 55 5404319552844595]
  by (simp add: round_even_def d03_def f_div_def)

lemma twice_d03: "f_add d03 d03 = 2 * d03"
  using binary64_eq [of "d03 + d03" 5404319552844595 53 5404319552844595]
  by (simp add: round_even_def d03_def f_add_def)

lemma min_d03: "f_add d03 (- (d03 / 2)) = d03 / 2"
  using half_d03 by (simp add: f_add_def f_div_def)

lemma max0_d03: "f_add (2 * d03) (- (d03 / 2)) = 8106479329266892 / 2 ^ 54"
  using binary64_eq [of "2 * d03 + - (d03 / 2)" "16212958658533785 / 2" 54 8106479329266892]
  by (simp add: round_even_def d03_def f_add_def)

lemma width0_d03: "f_sub (8106479329266892 / 2 ^ 54) (d03 / 2) = 5404319552844594 / 2 ^ 54"
  using binary64_eq [of "8106479329266892 / 2 ^ 54 - d03 / 2" "10808639105689189 / 2" 54
      5404319552844594]
  by (simp add: round_even_def d03_def f_sub_def)

lemma shifted_d03: "f_add d03 (5404319552844594 / 2 ^ 54) = 5404319552844594 / 2 ^ 53"
  using binary64_eq [of "d03 + 5404319552844594 / 2 ^ 54" "10808639105689189 / 2" 53
      5404319552844594]
  by (simp add: round_even_def d03_def f_add_def)

lemma max1_d03: "f_add (5404319552844594 / 2 ^ 53) (- (d03 / 2)) = 8106479329266890 / 2 ^ 54"
  using binary64_eq [of "5404319552844594 / 2 ^ 53 + - (d03 / 2)" "16212958658533781 / 2" 54
      8106479329266890]
  by (simp add: round_even_def d03_def f_add_def)

lemma width1_d03: "f_sub (8106479329266890 / 2 ^ 54) (d03 / 2) = 5404319552844592 / 2 ^ 54"
  using binary64_eq [of "8106479329266890 / 2 ^ 54 - d03 / 2" "10808639105689185 / 2" 54
      5404319552844592]
  by (simp add: round_even_def d03_def f_sub_def)

text \<open>
  \<open>new Ellipse(0.3, 0.3, 0.3, 0.3)\<close> followed by \<open>rotate(0)\<close>, along the x axis, every
  operation rounded: lines 89 to 95 give \<open>radiusV.x\<close>, lines 100 and 102 the two edges of
  the bounds, line 118 the new \<open>pos.x\<close> (the cosine of 0 is 1, its sine 0), lines 119 and
  120 the two edges again. The width of the bounds is 0.29999999999999993 before the
  rotation and 0.2999999999999998 after it, with every value finite: the size of the
  bounds is kept over exact arithmetic only.
\<close>

lemma rotate_width_binary64:
  "let x = d03; w = d03;
       hW = f_div w 2;
       radius = max hW hW;
       ratio = f_div hW radius;
       rv = f_mul radius ratio;
       min0 = f_add x (- rv);
       max0 = f_add (f_add x w) (- rv);
       pos' = f_add (f_sub (f_mul 1 (f_sub x 0)) (f_mul 0 (f_sub x 0))) 0;
       min1 = f_add pos' (- rv);
       max1 = f_add (f_add pos' (f_sub max0 min0)) (- rv)
   in f_sub max0 min0 = 5404319552844594 / 2 ^ 54 \<and>
      f_sub max1 min1 = 5404319552844592 / 2 ^ 54"
proof -
  have r: "max (d03 / 2) (d03 / 2) = d03 / 2" by simp
  have ratio: "f_div (d03 / 2) (d03 / 2) = 1" by (simp add: f_div_def d03_def)
  have rv: "f_mul (d03 / 2) 1 = d03 / 2" using half_d03 by (simp add: f_mul_def f_div_def)
  have p1: "f_sub d03 0 = d03" by (simp add: f_sub_def)
  have p2: "f_mul 1 d03 = d03" by (simp add: f_mul_def)
  have p3: "f_mul 0 d03 = 0" by (simp add: f_mul_def)
  have p4: "f_add d03 0 = d03" by (simp add: f_add_def)
  have t: "f_add d03 d03 = 2 * d03" by (rule twice_d03)
  show ?thesis
    unfolding Let_def half_d03 r ratio rv p1 p2 p3 p4 t min_d03 max0_d03 width0_d03
      shifted_d03 max1_d03 width1_d03
    by simp
qed

section \<open>The claims\<close>

text \<open>
  C1. The claim: after \<open>setShape(x, y, w, h)\<close> the bounds is the box from \<open>(x, y)\<close> to
  \<open>(x + w, y + h)\<close> moved left and up by \<open>radiusV\<close>, so its size is twice \<open>radiusV\<close>.
  Line 100 passes \<open>x + h\<close> where the lower edge \<open>y + h\<close> belongs. For the ellipse built
  by \<open>new Ellipse(1, 0, 4, 2)\<close> the bounds runs from \<open>(-1, -1)\<close> to \<open>(3, 2)\<close>: its height
  is 3, while twice \<open>radiusV.y\<close> is 2 and the claimed lower edge is 1.
\<close>

theorem setShape_maxY_from_x:
  "held_bounds (new_Ellipse (Fin 1) (Fin 0) (Fin 4) (Fin 2) store0) =
     \<lparr>bmin = \<lparr>vx = Fin (- 1), vy = Fin (- 1)\<rparr>, bmax = \<lparr>vx = Fin 3, vy = Fin 2\<rparr>\<rparr> \<and>
   height_b (held_bounds (new_Ellipse (Fin 1) (Fin 0) (Fin 4) (Fin 2) store0)) = Fin 3 \<and>
   n_mul (vy (radiusV (fst (new_Ellipse (Fin 1) (Fin 0) (Fin 4) (Fin 2) store0)))) (Fin 2) = Fin 2 \<and>
   vy (bmax (held_bounds (new_Ellipse (Fin 1) (Fin 0) (Fin 4) (Fin 2) store0))) \<noteq>
     n_sub (n_add (Fin 0) (Fin 2))
       (vy (radiusV (fst (new_Ellipse (Fin 1) (Fin 0) (Fin 4) (Fin 2) store0))))"
  by (simp add: held_bounds_def eval_defs)

text \<open>
  C2, as stated, fails at one of its values: for \<open>new Ellipse(0, 0, 4, 2)\<close> the call
  \<open>contains(0, 1.0001)\<close> returns true, since \<open>radiusSq.y\<close> is 2 and \<open>1.0001\<^sup>2 / 2 \<le> 1\<close>.
\<close>

theorem contains_0_10001_true:
  "contains (fst (new_Ellipse (Fin 0) (Fin 0) (Fin 4) (Fin 2) store0))
     (XY (Fin 0) (Fin (10001 / 10000)))"
  by (simp add: eval_defs contains_def)

text \<open>
  C2, amended. For \<open>new Ellipse(0, 0, 4, 2)\<close>: \<open>radius\<close> is 2, \<open>ratio\<close> is \<open>(1, 0.5)\<close>,
  \<open>radiusV\<close> is \<open>(2, 1)\<close>, \<open>radiusSq\<close> is \<open>(4, 2)\<close>; \<open>contains(1, 0)\<close> is true,
  \<open>contains(0, 1.0001)\<close> is true as well and \<open>contains(0, 1.5)\<close> is false; the top-left
  corner of the bounds is \<open>(-2, -1)\<close> and its size is \<open>(4, 2)\<close>.
\<close>

theorem ellipse_0_0_4_2:
  "case new_Ellipse (Fin 0) (Fin 0) (Fin 4) (Fin 2) s of (e, s') \<Rightarrow>
     radius e = Fin 2 \<and>
     ratio e = \<lparr>vx = Fin 1, vy = Fin (1 / 2)\<rparr> \<and>
     radiusV e = \<lparr>vx = Fin 2, vy = Fin 1\<rparr> \<and>
     radiusSq e = \<lparr>vx = Fin 4, vy = Fin 2\<rparr> \<and>
     contains e (XY (Fin 1) (Fin 0)) \<and>
     contains e (XY (Fin 0) (Fin (10001 / 10000))) \<and>
     \<not> contains e (XY (Fin 0) (Fin (3 / 2))) \<and>
     bmin (bounds_of e s') = \<lparr>vx = Fin (- 2), vy = Fin (- 1)\<rparr> \<and>
     width_b (bounds_of e s') = Fin 4 \<and>
     height_b (bounds_of e s') = Fin 2"
  by (simp add: eval_defs contains_def)

text \<open>
  C3. For every reachable ellipse and every point, \<open>contains(x, y)\<close> is the test
  \<open>dx\<^sup>2 / radiusSq.x + dy\<^sup>2 / radiusSq.y \<le> 1\<close> with \<open>dx = x - pos.x\<close>, \<open>dy = y - pos.y\<close>,
  where \<open>radiusSq\<close> is \<open>radius\<^sup>2\<close> times \<open>ratio\<close>, component by component; the form with
  one vector argument gives the same answer as the form with its two components.
\<close>

theorem contains_formula:
  assumes "reach e s"
  shows "contains e (XY x y) =
           n_le (n_add
                  (n_div (n_mul (n_sub x (vx (pos e))) (n_sub x (vx (pos e))))
                         (n_mul (n_mul (radius e) (radius e)) (vx (ratio e))))
                  (n_div (n_mul (n_sub y (vy (pos e))) (n_sub y (vy (pos e))))
                         (n_mul (n_mul (radius e) (radius e)) (vy (ratio e)))))
                (Fin 1) \<and>
         contains e (Vec v) = contains e (XY (vx v) (vy v)) \<and>
         radiusSq e = \<lparr>vx = n_mul (n_mul (radius e) (radius e)) (vx (ratio e)),
                        vy = n_mul (n_mul (radius e) (radius e)) (vy (ratio e))\<rparr>"
proof -
  note sq = reach_radiusSq [OF assms]
  have "vx (radiusSq e) = n_mul (n_mul (radius e) (radius e)) (vx (ratio e))"
    and "vy (radiusSq e) = n_mul (n_mul (radius e) (radius e)) (vy (ratio e))"
    by (simp_all add: sq)
  then show ?thesis using sq by (simp add: contains_def Let_def)
qed

text \<open>The ellipse \<open>new Ellipse(0, 0, 4, 2)\<close> is reachable, and C3 read at the point \<open>(1, 0)\<close>.\<close>

theorem contains_formula_witness:
  "reach (fst (new_Ellipse (Fin 0) (Fin 0) (Fin 4) (Fin 2) store0))
         (snd (new_Ellipse (Fin 0) (Fin 0) (Fin 4) (Fin 2) store0)) \<and>
   contains (fst (new_Ellipse (Fin 0) (Fin 0) (Fin 4) (Fin 2) store0)) (XY (Fin 1) (Fin 0)) =
     n_le (n_add (n_div (n_mul (Fin 1) (Fin 1)) (n_mul (n_mul (Fin 2) (Fin 2)) (Fin 1)))
                 (n_div (n_mul (Fin 0) (Fin 0)) (n_mul (n_mul (Fin 2) (Fin 2)) (Fin (1 / 2)))))
          (Fin 1)"
proof -
  have h: "reach (fst (new_Ellipse (Fin 0) (Fin 0) (Fin 4) (Fin 2) store0))
                 (snd (new_Ellipse (Fin 0) (Fin 0) (Fin 4) (Fin 2) store0))"
    by (rule reach.constructed [of "Fin 0" "Fin 0" "Fin 4" "Fin 2" store0]) simp
  show ?thesis
    using h contains_formula [OF h, of "Fin 1" "Fin 0"]
    by (simp add: eval_defs)
qed

text \<open>
  C4. For finite \<open>w, h > 0\<close>, after \<open>setShape(x, y, w, h)\<close>: \<open>radius\<close> is
  \<open>max(w/2, h/2)\<close>, twice \<open>radiusV.x\<close> is \<open>w\<close> and twice \<open>radiusV.y\<close> is \<open>h\<close>, over exact
  arithmetic.
\<close>

theorem setShape_positive:
  assumes "0 < a" and "0 < b"
  shows "case setShape e x y (Fin a) (Fin b) s of (e', s') \<Rightarrow>
           radius e' = Fin (max (a / 2) (b / 2)) \<and>
           n_mul (vx (radiusV e')) (Fin 2) = Fin a \<and>
           n_mul (vy (radiusV e')) (Fin 2) = Fin b"
proof -
  have "radius (fst (setShape e x y (Fin a) (Fin b) s)) = Fin (max (a / 2) (b / 2))"
    by (simp add: setShape_radius major_radius_def)
  moreover have "radiusV (fst (setShape e x y (Fin a) (Fin b) s)) = \<lparr>vx = Fin (a / 2), vy = Fin (b / 2)\<rparr>"
    using assms
    by (auto simp: setShape_radiusV semi_axis_def axis_ratio_def major_radius_def max_def)
  ultimately show ?thesis by (simp add: case_prod_beta)
qed

text \<open>C4 at \<open>w = 4\<close>, \<open>h = 2\<close>, on an ellipse that was a unit circle before.\<close>

theorem setShape_positive_witness:
  "(0::real) < 4 \<and> (0::real) < 2 \<and>
   (case setShape (fst (new_Ellipse (Fin 0) (Fin 0) (Fin 1) (Fin 1) store0)) (Fin 0) (Fin 0)
           (Fin 4) (Fin 2) (snd (new_Ellipse (Fin 0) (Fin 0) (Fin 1) (Fin 1) store0))
    of (e', s') \<Rightarrow>
      radius e' = Fin 2 \<and>
      n_mul (vx (radiusV e')) (Fin 2) = Fin 4 \<and>
      n_mul (vy (radiusV e')) (Fin 2) = Fin 2)"
  using setShape_positive [of 4 2 "fst (new_Ellipse (Fin 0) (Fin 0) (Fin 1) (Fin 1) store0)"
      "Fin 0" "Fin 0" "snd (new_Ellipse (Fin 0) (Fin 0) (Fin 1) (Fin 1) store0)"]
  by simp

text \<open>
  C5, as stated for every width and height, fails for negative sizes: after
  \<open>new Ellipse(0, 0, -2, -4)\<close> the radius is \<open>-1\<close> and \<open>ratio\<close> is \<open>(1, 2)\<close>, so
  \<open>ratio.y \<le> 1\<close> is false.
\<close>

theorem ratio_negative_sizes:
  "\<not> n_le (vy (ratio (fst (new_Ellipse (Fin 0) (Fin 0) (Fin (- 2)) (Fin (- 4)) store0))))
          (Fin 1)"
  by (simp add: eval_defs)

text \<open>
  C5, amended. For finite \<open>w\<close> and \<open>h\<close> of which the larger is positive, after
  \<open>setShape(x, y, w, h)\<close> both components of \<open>ratio\<close> are at most 1 and at least one of
  them is exactly 1.
\<close>

theorem ratio_bounded:
  assumes "0 < max a b"
  shows "case setShape e x y (Fin a) (Fin b) s of (e', s') \<Rightarrow>
           n_le (vx (ratio e')) (Fin 1) \<and> n_le (vy (ratio e')) (Fin 1) \<and>
           (vx (ratio e') = Fin 1 \<or> vy (ratio e') = Fin 1)"
proof -
  have "ratio (fst (setShape e x y (Fin a) (Fin b) s)) =
          \<lparr>vx = Fin (a / 2 / max (a / 2) (b / 2)), vy = Fin (b / 2 / max (a / 2) (b / 2))\<rparr>"
    using assms by (auto simp: setShape_ratio axis_ratio_def major_radius_def max_def)
  moreover have "a / 2 / max (a / 2) (b / 2) \<le> 1" "b / 2 / max (a / 2) (b / 2) \<le> 1"
    using assms by (auto simp: max_def divide_le_eq)
  moreover have "a / 2 / max (a / 2) (b / 2) = 1 \<or> b / 2 / max (a / 2) (b / 2) = 1"
    using assms by (auto simp: max_def)
  ultimately show ?thesis by (simp add: case_prod_beta)
qed

text \<open>The amended C5 at \<open>w = 4\<close>, \<open>h = -2\<close>.\<close>

theorem ratio_bounded_witness:
  "(0::real) < max 4 (- 2) \<and>
   (case setShape (fst (new_Ellipse (Fin 0) (Fin 0) (Fin 1) (Fin 1) store0)) (Fin 0) (Fin 0)
           (Fin 4) (Fin (- 2)) (snd (new_Ellipse (Fin 0) (Fin 0) (Fin 1) (Fin 1) store0))
    of (e', s') \<Rightarrow>
      n_le (vx (ratio e')) (Fin 1) \<and> n_le (vy (ratio e')) (Fin 1) \<and>
      (vx (ratio e') = Fin 1 \<or> vy (ratio e') = Fin 1))"
  using ratio_bounded [of 4 "- 2" "fst (new_Ellipse (Fin 0) (Fin 0) (Fin 1) (Fin 1) store0)"
      "Fin 0" "Fin 0" "snd (new_Ellipse (Fin 0) (Fin 0) (Fin 1) (Fin 1) store0)"]
  by simp

text \<open>
  C6. \<open>scale(sx, sy)\<close> is \<open>setShape(pos.x, pos.y, radiusV.x * 2 * sx, radiusV.y * 2 * sy)\<close>
  on the field values before the call, with \<open>sy\<close> taken to be \<open>sx\<close> when it is omitted,
  and \<open>scaleV(v)\<close> is \<open>scale(v.x, v.y)\<close>. On \<open>new Ellipse(0, 0, 4, 2)\<close>, \<open>scale(2)\<close>
  gives the full width and height \<open>(8, 4)\<close> and bounds with top-left corner \<open>(-4, -2)\<close>.
\<close>

theorem scale_refines_spec:
  "scale e sx (Some sy) s = scale_spec e sx sy s \<and>
   scale e sx None s = scale_spec e sx sx s \<and>
   scaleV e v s = scale e (vx v) (Some (vy v)) s \<and>
   (case new_Ellipse (Fin 0) (Fin 0) (Fin 4) (Fin 2) t of (e1, t1) \<Rightarrow>
      case scale e1 (Fin 2) None t1 of (e2, t2) \<Rightarrow>
        n_mul (vx (radiusV e2)) (Fin 2) = Fin 8 \<and>
        n_mul (vy (radiusV e2)) (Fin 2) = Fin 4 \<and>
        width_b (bounds_of e2 t2) = Fin 8 \<and>
        height_b (bounds_of e2 t2) = Fin 4 \<and>
        bmin (bounds_of e2 t2) = \<lparr>vx = Fin (- 4), vy = Fin (- 2)\<rparr>)"
  by (simp add: scale_def scale_spec_def scaleV_def eval_defs)

text \<open>
  C7. For every reachable ellipse, \<open>clone()\<close> returns a new ellipse, built by the
  constructor: it has the same centre and the same full width and height
  \<open>(2 * radiusV.x, 2 * radiusV.y)\<close>, indeed the same \<open>radiusV\<close> and \<open>radiusSq\<close>, so that
  \<open>contains\<close> answers on it as on the original at every point; its \<open>radius\<close> and \<open>ratio\<close>
  are the ones \<open>setShape\<close> derives from that width and height. Its bounds is one more
  instance pulled from the pool, other than the original's, and holds the box \<open>setShape\<close>
  leaves for the clone; nothing else in the store changes, so the bounds of the original
  is as it was, and the clone and the original are both reachable afterwards. No
  sequence of mutator calls on the clone, from any store, changes the bounds of the
  original or moves the clone to other bounds, and the same with the two exchanged.
\<close>

theorem clone_independent:
  assumes "reach e s"
  shows "case clone e s of (c, s') \<Rightarrow>
     pos c = pos e \<and>
     n_mul (vx (radiusV c)) (Fin 2) = n_mul (vx (radiusV e)) (Fin 2) \<and>
     n_mul (vy (radiusV c)) (Fin 2) = n_mul (vy (radiusV e)) (Fin 2) \<and>
     radiusV c = radiusV e \<and> radiusSq c = radiusSq e \<and>
     contains c args = contains e args \<and>
     shapeType c = ''Ellipse'' \<and>
     radius c = n_max (n_div (n_mul (vx (radiusV e)) (Fin 2)) (Fin 2))
                      (n_div (n_mul (vy (radiusV e)) (Fin 2)) (Fin 2)) \<and>
     ratio c = \<lparr>vx = n_div (n_div (n_mul (vx (radiusV e)) (Fin 2)) (Fin 2)) (radius c),
                 vy = n_div (n_div (n_mul (vy (radiusV e)) (Fin 2)) (Fin 2)) (radius c)\<rparr> \<and>
     bounds_ref c = Some (next_free s) \<and> bounds_ref e \<noteq> None \<and>
     bounds_ref c \<noteq> bounds_ref e \<and>
     next_free s' = Suc (next_free s) \<and>
     cells s' = (cells s)(next_free s := bounds_of c s') \<and>
     bounds_of c s' =
       \<lparr>bmin = \<lparr>vx = n_add (vx (pos e)) (n_neg (vx (radiusV c))),
                 vy = n_add (vy (pos e)) (n_neg (vy (radiusV c)))\<rparr>,
         bmax = \<lparr>vx = n_add (n_add (vx (pos e)) (n_mul (vx (radiusV e)) (Fin 2)))
                             (n_neg (vx (radiusV c))),
                 vy = n_add (n_add (vx (pos e)) (n_mul (vy (radiusV e)) (Fin 2)))
                             (n_neg (vy (radiusV c)))\<rparr>\<rparr> \<and>
     reach c s' \<and> reach e s' \<and>
     bounds_of e s' = bounds_of e s \<and>
     bounds_of e (snd (apply_all ms c t)) = bounds_of e t \<and>
     bounds_of c (snd (apply_all ms e t)) = bounds_of c t \<and>
     bounds_ref (fst (apply_all ms c t)) = bounds_ref c \<and>
     bounds_ref (fst (apply_all ms e t)) = bounds_ref e"
proof -
  from assms obtain a where a: "bounds_ref e = Some a" "a < next_free s"
    using reach_allocated by blast
  from assms obtain w h where sh: "shaped e w h"
    using reach_shaped by blast
  let ?c = "fst (clone e s)" and ?s' = "snd (clone e s)"
  have cref: "bounds_ref ?c = Some (next_free s)"
    by (simp add: clone_def new_Ellipse_bounds_ref)
  have ne: "next_free s \<noteq> a" "a \<noteq> next_free s" using a(2) by simp_all
  have p: "pos ?c = pos e" and rv: "radiusV ?c = radiusV e" and rs: "radiusSq ?c = radiusSq e"
    using sh by (rule clone_fields)+
  have ct: "contains ?c args = contains e args" using p rs by (rule contains_cong)
  have st: "shapeType ?c = ''Ellipse''" by (rule clone_derived)
  have rd: "radius ?c = n_max (n_div (n_mul (vx (radiusV e)) (Fin 2)) (Fin 2))
                               (n_div (n_mul (vy (radiusV e)) (Fin 2)) (Fin 2))"
    by (simp add: clone_derived major_radius_def)
  have rt: "ratio ?c =
      \<lparr>vx = n_div (n_div (n_mul (vx (radiusV e)) (Fin 2)) (Fin 2)) (radius ?c),
        vy = n_div (n_div (n_mul (vy (radiusV e)) (Fin 2)) (Fin 2)) (radius ?c)\<rparr>"
    by (simp add: clone_def new_Ellipse_def setShape_ratio setShape_radius axis_ratio_def)
  have nf: "next_free ?s' = Suc (next_free s)" by (rule clone_next_free)
  note cl = clone_cells [of e s]
  have bc: "bounds_of ?c ?s' =
       \<lparr>bmin = \<lparr>vx = n_add (vx (pos e)) (n_neg (vx (radiusV ?c))),
                 vy = n_add (vy (pos e)) (n_neg (vy (radiusV ?c)))\<rparr>,
         bmax = \<lparr>vx = n_add (n_add (vx (pos e)) (n_mul (vx (radiusV e)) (Fin 2)))
                             (n_neg (vx (radiusV ?c))),
                 vy = n_add (n_add (vx (pos e)) (n_mul (vy (radiusV e)) (Fin 2)))
                             (n_neg (vy (radiusV ?c)))\<rparr>\<rparr>"
    by (simp add: bounds_of_eq the_addr_def cref cl)
  have cs: "cells ?s' = (cells s)(next_free s := bounds_of ?c ?s')"
    unfolding bc by (rule cl)
  have keep: "bounds_of e ?s' = bounds_of e s"
    using a ne by (simp add: bounds_of_eq the_addr_def clone_def new_Ellipse_frame)
  have rc: "reach ?c ?s'" by (rule clone_reach)
  have le: "next_free s \<le> next_free ?s'" by (simp add: nf)
  have same: "cells ?s' (the_addr e s) = cells s (the_addr e s)"
    using a ne by (simp add: the_addr_def clone_def new_Ellipse_frame)
  have re: "reach e ?s'" using assms le same by (rule reach.elsewhere)
  have f1: "bounds_of e (snd (apply_all ms ?c t)) = bounds_of e t"
    using apply_all_frame [OF cref ne(2), of ms t] a(1) by (simp add: bounds_of_eq the_addr_def)
  have f2: "bounds_of ?c (snd (apply_all ms e t)) = bounds_of ?c t"
    using apply_all_frame [OF a(1) ne(1), of ms t] cref by (simp add: bounds_of_eq the_addr_def)
  have r1: "bounds_ref (fst (apply_all ms ?c t)) = bounds_ref ?c"
    using apply_all_bounds_ref [OF cref] cref by simp
  have r2: "bounds_ref (fst (apply_all ms e t)) = bounds_ref e"
    using apply_all_bounds_ref [OF a(1)] a(1) by simp
  have c1: "pos ?c = pos e \<and>
     n_mul (vx (radiusV ?c)) (Fin 2) = n_mul (vx (radiusV e)) (Fin 2) \<and>
     n_mul (vy (radiusV ?c)) (Fin 2) = n_mul (vy (radiusV e)) (Fin 2) \<and>
     radiusV ?c = radiusV e \<and> radiusSq ?c = radiusSq e \<and>
     contains ?c args = contains e args \<and> shapeType ?c = ''Ellipse''"
    using p rv rs ct st by simp
  have c2: "bounds_ref ?c = Some (next_free s) \<and> bounds_ref e \<noteq> None \<and>
     bounds_ref ?c \<noteq> bounds_ref e \<and> next_free ?s' = Suc (next_free s)"
    using cref a(1) ne nf by simp
  show ?thesis
    unfolding case_prod_beta
    using c1 rd rt c2 cs bc rc re keep f1 f2 r1 r2 by blast
qed

text \<open>
  C7 on \<open>new Ellipse(0, 0, 4, 2)\<close>: the original holds the bounds at address 0; the
  clone is reachable and holds those at address 1, pulled as the second instance, with
  the box from \<open>(-2, -1)\<close> to \<open>(2, 1)\<close>; translating then scaling the clone leaves the
  bounds of the original alone.
\<close>

theorem clone_independent_witness:
  "reach (fst ellipse_4_2) (snd ellipse_4_2) \<and>
   bounds_ref (fst ellipse_4_2) = Some 0 \<and>
   bounds_ref (fst (clone (fst ellipse_4_2) (snd ellipse_4_2))) = Some 1 \<and>
   next_free (snd (clone (fst ellipse_4_2) (snd ellipse_4_2))) = 2 \<and>
   held_bounds (clone (fst ellipse_4_2) (snd ellipse_4_2)) =
     \<lparr>bmin = \<lparr>vx = Fin (- 2), vy = Fin (- 1)\<rparr>, bmax = \<lparr>vx = Fin 2, vy = Fin 1\<rparr>\<rparr> \<and>
   reach (fst (clone (fst ellipse_4_2) (snd ellipse_4_2)))
         (snd (clone (fst ellipse_4_2) (snd ellipse_4_2))) \<and>
   contains (fst (clone (fst ellipse_4_2) (snd ellipse_4_2))) (XY (Fin 1) (Fin 0)) =
     contains (fst ellipse_4_2) (XY (Fin 1) (Fin 0)) \<and>
   bounds_of (fst ellipse_4_2)
     (snd (apply_all [Translate (XY (Fin 3) (Fin 5)), Scale (Fin 2) None]
            (fst (clone (fst ellipse_4_2) (snd ellipse_4_2)))
            (snd (clone (fst ellipse_4_2) (snd ellipse_4_2))))) =
     bounds_of (fst ellipse_4_2) (snd ellipse_4_2)"
proof -
  let ?E = "fst ellipse_4_2" and ?S = "snd ellipse_4_2"
  let ?C = "fst (clone ?E ?S)" and ?T = "snd (clone ?E ?S)"
  let ?ms = "[Translate (XY (Fin 3) (Fin 5)), Scale (Fin 2) None]"
  have h: "reach ?E ?S"
    unfolding ellipse_4_2_def
    by (rule reach.constructed [of "Fin 0" "Fin 0" "Fin 4" "Fin 2" store0]) simp
  note th = clone_independent [OF h, of "XY (Fin 1) (Fin 0)" ?ms ?T, unfolded case_prod_beta]
  from th have ref: "bounds_ref ?C = Some (next_free ?S)"
    and nf: "next_free ?T = Suc (next_free ?S)"
    and rc: "reach ?C ?T"
    and ct: "contains ?C (XY (Fin 1) (Fin 0)) = contains ?E (XY (Fin 1) (Fin 0))"
    and keep: "bounds_of ?E ?T = bounds_of ?E ?S"
    and fr: "bounds_of ?E (snd (apply_all ?ms ?C ?T)) = bounds_of ?E ?T"
    by blast+
  from th have rv: "n_mul (vx (radiusV ?C)) (Fin 2) = n_mul (vx (radiusV ?E)) (Fin 2)"
    and rw: "n_mul (vy (radiusV ?C)) (Fin 2) = n_mul (vy (radiusV ?E)) (Fin 2)"
    by blast+
  from th have bc: "bounds_of ?C ?T =
       \<lparr>bmin = \<lparr>vx = n_add (vx (pos ?E)) (n_neg (vx (radiusV ?C))),
                 vy = n_add (vy (pos ?E)) (n_neg (vy (radiusV ?C)))\<rparr>,
         bmax = \<lparr>vx = n_add (n_add (vx (pos ?E)) (n_mul (vx (radiusV ?E)) (Fin 2)))
                             (n_neg (vx (radiusV ?C))),
                 vy = n_add (n_add (vx (pos ?E)) (n_mul (vy (radiusV ?E)) (Fin 2)))
                             (n_neg (vy (radiusV ?C)))\<rparr>\<rparr>"
    by blast
  have cv: "radiusV ?C = \<lparr>vx = Fin 2, vy = Fin 1\<rparr>"
  proof -
    have "vx (radiusV ?C) = Fin 2"
      using rv by (cases "vx (radiusV ?C)") (simp_all add: ellipse_4_2_fields split: if_splits)
    moreover have "vy (radiusV ?C) = Fin 1"
      using rw by (cases "vy (radiusV ?C)") (simp_all add: ellipse_4_2_fields split: if_splits)
    ultimately show ?thesis by (cases "radiusV ?C") simp
  qed
  have hb: "held_bounds (clone ?E ?S) =
     \<lparr>bmin = \<lparr>vx = Fin (- 2), vy = Fin (- 1)\<rparr>, bmax = \<lparr>vx = Fin 2, vy = Fin 1\<rparr>\<rparr>"
    unfolding held_bounds_def bc cv by (simp add: ellipse_4_2_fields)
  show ?thesis
    using h ref nf rc ct keep fr hb by (simp add: ellipse_4_2_fields)
qed

text \<open>
  C8. For every reachable ellipse and every offset, \<open>translate\<close> adds the offset to
  \<open>pos\<close> and to both corners of the bounds, and leaves \<open>radius\<close>, \<open>ratio\<close>, \<open>radiusV\<close>
  and \<open>radiusSq\<close> as they were; the call with one vector does what the call with its two
  components does.
\<close>

theorem translate_effect:
  assumes "reach e s"
  shows "(case translate e (XY dx dy) s of (e', s') \<Rightarrow>
     pos e' = \<lparr>vx = n_add (vx (pos e)) dx, vy = n_add (vy (pos e)) dy\<rparr> \<and>
     bounds_of e' s' =
       \<lparr>bmin = \<lparr>vx = n_add (vx (bmin (bounds_of e s))) dx,
                 vy = n_add (vy (bmin (bounds_of e s))) dy\<rparr>,
         bmax = \<lparr>vx = n_add (vx (bmax (bounds_of e s))) dx,
                 vy = n_add (vy (bmax (bounds_of e s))) dy\<rparr>\<rparr> \<and>
     radius e' = radius e \<and> ratio e' = ratio e \<and>
     radiusV e' = radiusV e \<and> radiusSq e' = radiusSq e) \<and>
   translate e (Vec v) s = translate e (XY (vx v) (vy v)) s"
proof -
  from assms obtain a where a: "bounds_ref e = Some a"
    using reach_allocated by blast
  then have ta: "the_addr e s = a" by (rule the_addr_Some)
  have "translate e (Vec v) s = translate e (XY (vx v) (vy v)) s"
    by (simp add: translate_def)
  then show ?thesis
    using a ta
    by (simp add: case_prod_beta translate_fst translate_snd bounds_of_eq the_addr_def translate_b_def)
qed

text \<open>
  C8 on \<open>new Ellipse(0, 0, 4, 2)\<close>, translated by \<open>(3, 5)\<close>.
\<close>

theorem translate_effect_witness:
  "reach (fst ellipse_4_2) (snd ellipse_4_2) \<and>
   pos (fst (translate (fst ellipse_4_2) (XY (Fin 3) (Fin 5)) (snd ellipse_4_2))) =
     \<lparr>vx = Fin 3, vy = Fin 5\<rparr> \<and>
   held_bounds (translate (fst ellipse_4_2) (XY (Fin 3) (Fin 5)) (snd ellipse_4_2)) =
     \<lparr>bmin = \<lparr>vx = Fin 1, vy = Fin 4\<rparr>, bmax = \<lparr>vx = Fin 5, vy = Fin 6\<rparr>\<rparr> \<and>
   radiusV (fst (translate (fst ellipse_4_2) (XY (Fin 3) (Fin 5)) (snd ellipse_4_2))) =
     \<lparr>vx = Fin 2, vy = Fin 1\<rparr>"
proof -
  let ?T = "translate (fst ellipse_4_2) (XY (Fin 3) (Fin 5)) (snd ellipse_4_2)"
  have h: "reach (fst ellipse_4_2) (snd ellipse_4_2)"
    unfolding ellipse_4_2_def
    by (rule reach.constructed [of "Fin 0" "Fin 0" "Fin 4" "Fin 2" store0]) simp
  note th = translate_effect [OF h, of "Fin 3" "Fin 5", unfolded case_prod_beta]
  from th have
    "pos (fst ?T) = \<lparr>vx = n_add (vx (pos (fst ellipse_4_2))) (Fin 3),
                      vy = n_add (vy (pos (fst ellipse_4_2))) (Fin 5)\<rparr>"
    and "bounds_of (fst ?T) (snd ?T) =
       \<lparr>bmin = \<lparr>vx = n_add (vx (bmin (bounds_of (fst ellipse_4_2) (snd ellipse_4_2)))) (Fin 3),
                 vy = n_add (vy (bmin (bounds_of (fst ellipse_4_2) (snd ellipse_4_2)))) (Fin 5)\<rparr>,
         bmax = \<lparr>vx = n_add (vx (bmax (bounds_of (fst ellipse_4_2) (snd ellipse_4_2)))) (Fin 3),
                 vy = n_add (vy (bmax (bounds_of (fst ellipse_4_2) (snd ellipse_4_2)))) (Fin 5)\<rparr>\<rparr>"
    and "radiusV (fst ?T) = radiusV (fst ellipse_4_2)"
    by blast+
  then show ?thesis
    using h by (simp add: ellipse_4_2_fields held_bounds_def)
qed

text \<open>
  C9. For every reachable ellipse and all finite \<open>dx\<close>, \<open>dy\<close>, \<open>translate(dx, dy)\<close>
  followed by \<open>translate(-dx, -dy)\<close> gives back the original \<open>pos\<close> and bounds (indeed
  the whole ellipse and store), over exact arithmetic.
\<close>

theorem translate_back:
  assumes "reach e s"
  shows "case translate e (XY (Fin dx) (Fin dy)) s of (e1, s1) \<Rightarrow>
     case translate e1 (XY (Fin (- dx)) (Fin (- dy))) s1 of (e2, s2) \<Rightarrow>
       pos e2 = pos e \<and> bounds_of e2 s2 = bounds_of e s \<and> e2 = e \<and> s2 = s"
proof -
  from assms obtain a where a: "bounds_ref e = Some a"
    using reach_allocated by blast
  then have ta: "the_addr e s = a" by (rule the_addr_Some)
  show ?thesis
    using a ta
    by (simp add: case_prod_beta translate_fst translate_snd bounds_of_eq the_addr_def translate_b_def
        n_add_back the_addr_def)
qed

text \<open>
  C9 on \<open>new Ellipse(0, 0, 4, 2)\<close>, moved by \<open>(3, 5)\<close> and back.
\<close>

theorem translate_back_witness:
  "reach (fst ellipse_4_2) (snd ellipse_4_2) \<and>
   pos (fst (translate (fst ellipse_4_2) (XY (Fin 3) (Fin 5)) (snd ellipse_4_2))) =
     \<lparr>vx = Fin 3, vy = Fin 5\<rparr> \<and>
   pos (fst (translate (fst (translate (fst ellipse_4_2) (XY (Fin 3) (Fin 5)) (snd ellipse_4_2)))
          (XY (Fin (- 3)) (Fin (- 5)))
          (snd (translate (fst ellipse_4_2) (XY (Fin 3) (Fin 5)) (snd ellipse_4_2))))) =
     \<lparr>vx = Fin 0, vy = Fin 0\<rparr> \<and>
   held_bounds (translate (fst (translate (fst ellipse_4_2) (XY (Fin 3) (Fin 5)) (snd ellipse_4_2)))
          (XY (Fin (- 3)) (Fin (- 5)))
          (snd (translate (fst ellipse_4_2) (XY (Fin 3) (Fin 5)) (snd ellipse_4_2)))) =
     \<lparr>bmin = \<lparr>vx = Fin (- 2), vy = Fin (- 1)\<rparr>, bmax = \<lparr>vx = Fin 2, vy = Fin 1\<rparr>\<rparr>"
proof -
  let ?T = "translate (fst ellipse_4_2) (XY (Fin 3) (Fin 5)) (snd ellipse_4_2)"
  let ?U = "translate (fst ?T) (XY (Fin (- 3)) (Fin (- 5))) (snd ?T)"
  have h: "reach (fst ellipse_4_2) (snd ellipse_4_2)"
    unfolding ellipse_4_2_def
    by (rule reach.constructed [of "Fin 0" "Fin 0" "Fin 4" "Fin 2" store0]) simp
  have first: "pos (fst ?T) = \<lparr>vx = Fin 3, vy = Fin 5\<rparr>"
    by (simp add: translate_fst ellipse_4_2_fields)
  note th = translate_back [OF h, of 3 5, unfolded case_prod_beta]
  from th have "pos (fst ?U) = pos (fst ellipse_4_2)"
    and "bounds_of (fst ?U) (snd ?U) = bounds_of (fst ellipse_4_2) (snd ellipse_4_2)"
    by blast+
  then show ?thesis
    using h first by (simp add: ellipse_4_2_fields held_bounds_def)
qed




end
